theory Spec2Isabelle
  imports Main
begin

section \<open>Go library primitives\<close>

text \<open>
  A Go \<^verbatim>\<open>string\<close> is a sequence of bytes; it is modelled as a \<^typ>\<open>string\<close>, one
  \<^typ>\<open>char\<close> per byte.  Go's \<^verbatim>\<open>int\<close> is taken to be 64 bits wide; it is modelled
  as \<^typ>\<open>int\<close> and the only two places where a 64-bit unsigned value is converted to
  \<^verbatim>\<open>int\<close> write the wrap-around out (\<open>int_of_uint64\<close>).
\<close>

definition isDigit :: "char \<Rightarrow> bool" where
  "isDigit c = (48 \<le> (of_char c :: nat) \<and> (of_char c :: nat) \<le> 57)"

definition digitVal :: "char \<Rightarrow> nat" where
  "digitVal c = (of_char c :: nat) - 48"

definition decimal :: "string \<Rightarrow> nat" where
  "decimal s = foldl (\<lambda>n c. 10 * n + digitVal c) 0 s"

text \<open>\<^verbatim>\<open>strconv.ParseUint(s, 10, 64)\<close>: no sign, no underscore, at least one digit,
  and the value has to fit 64 bits; \<open>None\<close> is the error return.\<close>

definition ParseUint :: "string \<Rightarrow> nat option" where
  "ParseUint s =
     (if s = [] \<or> \<not> list_all isDigit s then None
      else if decimal s < 2 ^ 64 then Some (decimal s) else None)"

text \<open>The conversion \<^verbatim>\<open>int(n)\<close> of a \<^verbatim>\<open>uint64\<close>: the bits are kept, so a value from
  \<open>2^63\<close> on becomes negative.\<close>

definition int_of_uint64 :: "nat \<Rightarrow> int" where
  "int_of_uint64 n = (if n < 2 ^ 63 then int n else int n - 2 ^ 64)"

text \<open>Go's \<^verbatim>\<open>%\<close> truncates towards zero: the result has the sign of the dividend.\<close>

definition go_rem :: "int \<Rightarrow> int \<Rightarrow> int" where
  "go_rem a b = (if 0 \<le> a then a mod \<bar>b\<bar> else - ((- a) mod \<bar>b\<bar>))"

text \<open>\<^verbatim>\<open>fmt.Sprintf("%d", i)\<close> for a non-negative index.\<close>

definition digitChar :: "nat \<Rightarrow> char" where
  "digitChar d = ''0123456789'' ! d"

fun showNat :: "nat \<Rightarrow> string" where
  "showNat n = (if n < 10 then [digitChar n] else showNat (n div 10) @ [digitChar (n mod 10)])"

declare showNat.simps [simp del]

text \<open>\<^verbatim>\<open>strings.ToLower\<close>: a string of ASCII bytes only has its letters \<open>A\<close> to \<open>Z\<close>
  shifted; any other string goes through \<^verbatim>\<open>strings.Map(unicode.ToLower, s)\<close>, whose
  Unicode case tables are not part of this development: that mapping is the parameter
  \<open>ul\<close> of everything that lowercases.\<close>

definition lowerByte :: "char \<Rightarrow> char" where
  "lowerByte c =
     (if 65 \<le> (of_char c :: nat) \<and> (of_char c :: nat) \<le> 90
      then ''abcdefghijklmnopqrstuvwxyz'' ! ((of_char c :: nat) - 65) else c)"

definition isASCII :: "string \<Rightarrow> bool" where
  "isASCII s = list_all (\<lambda>c. (of_char c :: nat) < 128) s"

definition ToLower :: "(string \<Rightarrow> string) \<Rightarrow> string \<Rightarrow> string" where
  "ToLower ul s = (if isASCII s then map lowerByte s else ul s)"

text \<open>\<^verbatim>\<open>strings.Replace(s, old, new, -1)\<close> for a non-empty \<open>old\<close> (the only use: the
  empty alias is skipped by the caller): every non-overlapping occurrence, leftmost
  first.\<close>

function Replace :: "string \<Rightarrow> string \<Rightarrow> string \<Rightarrow> string" where
  "Replace [] old new = []"
| "Replace (c # cs) old new =
     (if old \<noteq> [] \<and> take (length old) (c # cs) = old
      then new @ Replace (drop (length old) (c # cs)) old new
      else c # Replace cs old new)"
  by pat_completeness auto
termination
  by (relation "measure (\<lambda>(s, old, new). length s)") auto

text \<open>\<^verbatim>\<open>strings.Split(s, ",")\<close> with a one-byte separator: always at least one piece.\<close>

fun Split :: "string \<Rightarrow> char \<Rightarrow> string list" where
  "Split [] sep = [[]]"
| "Split (c # cs) sep =
     (if c = sep then [] # Split cs sep
      else (case Split cs sep of [] \<Rightarrow> [[c]] | x # xs \<Rightarrow> (c # x) # xs))"

text \<open>\<^verbatim>\<open>strings.SplitN(s, "/", 2)\<close>: \<open>None\<close> stands for the one-element result (no
  separator), \<open>Some (a, b)\<close> for the two pieces around the first separator.\<close>

definition SplitN2 :: "string \<Rightarrow> char \<Rightarrow> (string \<times> string) option" where
  "SplitN2 s sep =
     (case dropWhile (\<lambda>c. c \<noteq> sep) s of
        [] \<Rightarrow> None
      | _ # r \<Rightarrow> Some (takeWhile (\<lambda>c. c \<noteq> sep) s, r))"

text \<open>
  UTF-8 as Go reads it.  \<open>DecodeRune\<close> is \<^verbatim>\<open>utf8.DecodeRune\<close> (and the decoding of a
  \<^verbatim>\<open>range\<close> loop over a string): the code point and the number of bytes read; a byte
  that starts no valid encoding is read as \<open>RuneError\<close> of width one.  \<open>EncodeRune\<close>
  is the conversion \<^verbatim>\<open>string(r)\<close>, also what \<^verbatim>\<open>WriteRune\<close> appends: \<open>RuneError\<close> is
  written as its own three bytes.  \<open>IsSpace\<close> is \<^verbatim>\<open>unicode.IsSpace\<close>.
\<close>

type_synonym rune = nat

definition RuneError :: rune where
  "RuneError = 0xFFFD"

definition inRange :: "char \<Rightarrow> nat \<Rightarrow> nat \<Rightarrow> bool" where
  "inRange b lo hi = (lo \<le> (of_char b :: nat) \<and> (of_char b :: nat) \<le> hi)"

definition contBits :: "char \<Rightarrow> nat" where
  "contBits b = (of_char b :: nat) mod 64"

fun DecodeRune :: "string \<Rightarrow> rune \<times> nat" where
  "DecodeRune [] = (RuneError, 0)"
| "DecodeRune (p0 # ps) =
     (let b0 = (of_char p0 :: nat) in
      if b0 < 0x80 then (b0, 1)
      else if b0 < 0xC2 \<or> 0xF4 < b0 then (RuneError, 1)
      else if b0 < 0xE0 then
        (case ps of
           b1 # _ \<Rightarrow>
             if inRange b1 0x80 0xBF then ((b0 mod 32) * 64 + contBits b1, 2)
             else (RuneError, 1)
         | _ \<Rightarrow> (RuneError, 1))
      else if b0 < 0xF0 then
        (case ps of
           b1 # b2 # _ \<Rightarrow>
             if inRange b1 (if b0 = 0xE0 then 0xA0 else 0x80) (if b0 = 0xED then 0x9F else 0xBF)
                \<and> inRange b2 0x80 0xBF
             then (((b0 mod 16) * 64 + contBits b1) * 64 + contBits b2, 3)
             else (RuneError, 1)
         | _ \<Rightarrow> (RuneError, 1))
      else
        (case ps of
           b1 # b2 # b3 # _ \<Rightarrow>
             if inRange b1 (if b0 = 0xF0 then 0x90 else 0x80) (if b0 = 0xF4 then 0x8F else 0xBF)
                \<and> inRange b2 0x80 0xBF \<and> inRange b3 0x80 0xBF
             then ((((b0 mod 8) * 64 + contBits b1) * 64 + contBits b2) * 64 + contBits b3, 4)
             else (RuneError, 1)
         | _ \<Rightarrow> (RuneError, 1)))"

definition EncodeRune :: "rune \<Rightarrow> string" where
  "EncodeRune r =
     (if r < 0x80 then [char_of r]
      else if r < 0x800 then [char_of (0xC0 + r div 64), char_of (0x80 + r mod 64)]
      else if 0x10FFFF < r \<or> (0xD800 \<le> r \<and> r \<le> 0xDFFF) then [CHR 0xEF, CHR 0xBF, CHR 0xBD]
      else if r < 0x10000 then
        [char_of (0xE0 + r div 4096), char_of (0x80 + (r div 64) mod 64), char_of (0x80 + r mod 64)]
      else
        [char_of (0xF0 + r div 262144), char_of (0x80 + (r div 4096) mod 64),
         char_of (0x80 + (r div 64) mod 64), char_of (0x80 + r mod 64)])"

definition IsSpace :: "rune \<Rightarrow> bool" where
  "IsSpace r =
     ((0x09 \<le> r \<and> r \<le> 0x0D) \<or> r = 0x20 \<or> r = 0x85 \<or> r = 0xA0 \<or> r = 0x1680 \<or>
      (0x2000 \<le> r \<and> r \<le> 0x200A) \<or> r = 0x2028 \<or> r = 0x2029 \<or> r = 0x202F \<or>
      r = 0x205F \<or> r = 0x3000)"

text \<open>\<^verbatim>\<open>utf8.DecodeLastRune\<close>, with its backward scan for the start of the last
  rune, and \<^verbatim>\<open>strings.TrimSpace\<close> as \<^verbatim>\<open>TrimRightFunc(TrimLeftFunc(s, IsSpace), IsSpace)\<close>
  (the ASCII fast path of the library gives the same result).\<close>

definition RuneStart :: "char \<Rightarrow> bool" where
  "RuneStart b = (\<not> inRange b 0x80 0xBF)"

function scanStart :: "string \<Rightarrow> int \<Rightarrow> int \<Rightarrow> int" where
  "scanStart p start lim =
     (if start \<ge> lim
      then (if RuneStart (p ! nat start) then start else scanStart p (start - 1) lim)
      else start)"
  by pat_completeness auto
termination
  by (relation "measure (\<lambda>(p, start, lim). nat (start + 1 - lim))") auto

declare scanStart.simps [simp del]

definition DecodeLastRune :: "string \<Rightarrow> rune \<times> nat" where
  "DecodeLastRune p =
     (if p = [] then (RuneError, 0)
      else if (of_char (last p) :: nat) < 0x80 then (of_char (last p), 1)
      else
        (let e = int (length p);
             lim = max 0 (e - 4);
             start = max 0 (scanStart p (e - 2) lim);
             (r, size) = DecodeRune (drop (nat start) p)
         in if start + int size \<noteq> e then (RuneError, 1) else (r, size)))"

function TrimLeft :: "string \<Rightarrow> string" where
  "TrimLeft s =
     (if s = [] then []
      else if IsSpace (fst (DecodeRune s)) then TrimLeft (drop (snd (DecodeRune s)) s)
      else s)"
  by pat_completeness auto
termination
proof (relation "measure length")
  show "wf (measure length)" by simp
next
  fix s :: string
  assume "s \<noteq> []" "IsSpace (fst (DecodeRune s))"
  then obtain c cs where s: "s = c # cs" by (cases s) auto
  have "0 < snd (DecodeRune (c # cs))"
    by (auto simp: Let_def split: list.splits)
  then show "(drop (snd (DecodeRune s)) s, s) \<in> measure length"
    using s by simp
qed

declare TrimLeft.simps [simp del]

function TrimRight :: "string \<Rightarrow> string" where
  "TrimRight s =
     (if s = [] then []
      else if IsSpace (fst (DecodeLastRune s))
      then TrimRight (take (length s - snd (DecodeLastRune s)) s)
      else s)"
  by pat_completeness auto
termination
proof (relation "measure length")
  show "wf (measure length)" by simp
next
  fix s :: string
  assume ne: "s \<noteq> []" and sp: "IsSpace (fst (DecodeLastRune s))"
  have "0 < snd (DecodeLastRune s)"
  proof (rule ccontr)
    assume "\<not> 0 < snd (DecodeLastRune s)"
    then have z: "snd (DecodeLastRune s) = 0" by simp
    obtain r w where d: "DecodeRune (drop (nat (max 0 (scanStart s (int (length s) - 2)
                            (max 0 (int (length s) - 4))))) s) = (r, w)"
      by (cases "DecodeRune (drop (nat (max 0 (scanStart s (int (length s) - 2)
                            (max 0 (int (length s) - 4))))) s)")
    from z ne d have "fst (DecodeLastRune s) = RuneError \<or> w = 0"
      by (auto simp: DecodeLastRune_def Let_def split: if_splits)
    moreover have "fst (DecodeLastRune s) = r" if "w = 0"
      using that z ne d by (auto simp: DecodeLastRune_def Let_def split: if_splits)
    moreover have "r = RuneError" if "w = 0"
      using that d
      by (cases "drop (nat (max 0 (scanStart s (int (length s) - 2)
                            (max 0 (int (length s) - 4))))) s")
         (auto simp: Let_def split: list.splits if_splits)
    ultimately have "fst (DecodeLastRune s) = RuneError" by auto
    with sp show False by (simp add: IsSpace_def RuneError_def)
  qed
  then show "(take (length s - snd (DecodeLastRune s)) s, s) \<in> measure length"
    using ne by (cases s) auto
qed

declare TrimRight.simps [simp del]

definition TrimSpace :: "string \<Rightarrow> string" where
  "TrimSpace s = TrimRight (TrimLeft s)"

section \<open>scheduleentity.go\<close>

datatype scheduleType =
  scheduleMinute | scheduleHour | scheduleDay | scheduleMonth | scheduleDayOfWeek

record entityParam =
  ep_Range :: "int \<times> int"
  ep_Aliases :: "string list"

fun entityParams :: "scheduleType \<Rightarrow> entityParam" where
  "entityParams scheduleMinute = \<lparr>ep_Range = (0, 59), ep_Aliases = []\<rparr>"
| "entityParams scheduleHour = \<lparr>ep_Range = (0, 23), ep_Aliases = []\<rparr>"
| "entityParams scheduleDay = \<lparr>ep_Range = (1, 31), ep_Aliases = []\<rparr>"
| "entityParams scheduleMonth = \<lparr>ep_Range = (1, 12), ep_Aliases =
     ['''', ''jan'', ''feb'', ''mar'', ''apr'', ''may'', ''jun'', ''jul'', ''aug'', ''sep'',
      ''oct'', ''nov'', ''dec'']\<rparr>"
| "entityParams scheduleDayOfWeek = \<lparr>ep_Range = (0, 7), ep_Aliases =
     [''sun'', ''mon'', ''tue'', ''wed'', ''thu'', ''fri'', ''sat'']\<rparr>"

text \<open>The errors of \<^verbatim>\<open>init\<close> and \<^verbatim>\<open>parseRange\<close>, one constructor per format string,
  carrying the texts the message names.\<close>

datatype error =
  InvalidRange string
| InvalidEntityRange string error
| InvalidIncrements string string
| InvalidEntity string

record scheduleEntity =
  se_raw :: string
  se_typ :: scheduleType
  se_expanded :: "int list"

definition Match :: "scheduleEntity option \<Rightarrow> int \<Rightarrow> bool" where
  "Match se num = (case se of None \<Rightarrow> False | Some e \<Rightarrow> num \<in> set (se_expanded e))"

text \<open>\<^verbatim>\<open>rangeReg = ^(\d{1,2})-(\d{1,2})$\<close>: the two captured digit groups.\<close>

definition rangeReg :: "string \<Rightarrow> (string \<times> string) option" where
  "rangeReg item =
     (let m1 = takeWhile isDigit item in
      case dropWhile isDigit item of
        [] \<Rightarrow> None
      | c # m2 \<Rightarrow>
          if c = CHR ''-'' \<and> 1 \<le> length m1 \<and> length m1 \<le> 2 \<and>
             1 \<le> length m2 \<and> length m2 \<le> 2 \<and> list_all isDigit m2
          then Some (m1, m2) else None)"

definition parseRange :: "string \<Rightarrow> int \<times> int \<Rightarrow> error + int \<times> int" where
  "parseRange item rng =
     (if item = ''*'' then Inr (fst rng, snd rng)
      else case rangeReg item of
             Some (m1, m2) \<Rightarrow>
               (let min = int (decimal m1); max = int (decimal m2) in
                if min \<ge> max \<or> min < fst rng \<or> max > snd rng
                then Inl (InvalidRange item) else Inr (min, max))
           | None \<Rightarrow> Inl (InvalidRange item))"

text \<open>The alias loop of \<^verbatim>\<open>init\<close>: \<open>i\<close> is the index of the alias at the head.\<close>

fun substAliases :: "string \<Rightarrow> nat \<Rightarrow> string list \<Rightarrow> string" where
  "substAliases entity i [] = entity"
| "substAliases entity i (v # vs) =
     (if v = [] then substAliases entity (Suc i) vs
      else substAliases (Replace entity v (showNat i)) (Suc i) vs)"

text \<open>The two counting loops \<^verbatim>\<open>for i := rng[0]; i <= rng[1]; i++\<close>.\<close>

function stepLoop :: "int \<Rightarrow> int \<Rightarrow> int \<Rightarrow> int \<Rightarrow> int list \<Rightarrow> int list" where
  "stepLoop i hi incr incrCounter acc =
     (if i \<le> hi
      then stepLoop (i + 1) hi incr (incrCounter + 1)
             (if go_rem incrCounter incr = 0 then acc @ [i] else acc)
      else acc)"
  by pat_completeness auto
termination
  by (relation "measure (\<lambda>(i, hi, incr, incrCounter, acc). nat (hi + 1 - i))") auto

declare stepLoop.simps [simp del]

function rangeLoop :: "int \<Rightarrow> int \<Rightarrow> int list \<Rightarrow> int list" where
  "rangeLoop i hi acc = (if i \<le> hi then rangeLoop (i + 1) hi (acc @ [i]) else acc)"
  by pat_completeness auto
termination
  by (relation "measure (\<lambda>(i, hi, acc). nat (hi + 1 - i))") auto

declare rangeLoop.simps [simp del]

text \<open>The loop over the comma-separated items; \<open>acc\<close> is the slice \<^verbatim>\<open>expanded\<close>.\<close>

fun expandItems :: "string \<Rightarrow> int \<times> int \<Rightarrow> string list \<Rightarrow> int list \<Rightarrow> error + int list" where
  "expandItems r rng [] acc = Inr acc"
| "expandItems r rng (item # items) acc =
     (case SplitN2 item (CHR ''/'') of
        Some (s0, s1) \<Rightarrow>
          (case parseRange s0 rng of
             Inl e \<Rightarrow> Inl (InvalidEntityRange r e)
           | Inr (lo, hi) \<Rightarrow>
               (case ParseUint s1 of
                  None \<Rightarrow> Inl (InvalidIncrements s1 r)
                | Some increments \<Rightarrow>
                    if increments = 0 then Inl (InvalidIncrements s1 r)
                    else expandItems r rng items
                           (stepLoop lo hi (int_of_uint64 increments) 0 acc)))
      | None \<Rightarrow>
          (case ParseUint item of
             Some n \<Rightarrow>
               (let num = int_of_uint64 n in
                if num < fst rng \<or> num > snd rng then Inl (InvalidEntity r)
                else expandItems r rng items (acc @ [num]))
           | None \<Rightarrow>
               (case parseRange item rng of
                  Inl e \<Rightarrow> Inl (InvalidEntityRange r e)
                | Inr (lo, hi) \<Rightarrow> expandItems r rng items (rangeLoop lo hi acc))))"

text \<open>The Sunday loop and the first-occurrence deduplication with its \<^verbatim>\<open>seen\<close> map.\<close>

definition hasSun :: "int list \<Rightarrow> bool" where
  "hasSun xs = foldl (\<lambda>h v. if v = 7 then True else h) False xs"

definition addSunday :: "scheduleType \<Rightarrow> int list \<Rightarrow> int list" where
  "addSunday st xs = (if st = scheduleDayOfWeek \<and> hasSun xs then xs @ [0] else xs)"

fun uniqLoop :: "int list \<Rightarrow> int set \<Rightarrow> int list \<Rightarrow> int list" where
  "uniqLoop [] seen uniqness = uniqness"
| "uniqLoop (v # vs) seen uniqness =
     (if v \<notin> seen then uniqLoop vs (insert v seen) (uniqness @ [v])
      else uniqLoop vs seen uniqness)"

text \<open>\<^verbatim>\<open>init\<close>: the entity is returned with \<^verbatim>\<open>expanded\<close> set, or the error.  The lookup
  in \<^verbatim>\<open>entityParams\<close> cannot miss on the five kinds of \<^typ>\<open>scheduleType\<close>.\<close>

definition init :: "(string \<Rightarrow> string) \<Rightarrow> scheduleEntity \<Rightarrow> error + scheduleEntity" where
  "init ul se =
     (let ep = entityParams (se_typ se);
          entity = substAliases (ToLower ul (se_raw se)) 0 (ep_Aliases ep)
      in case expandItems (se_raw se) (ep_Range ep) (Split entity (CHR '','')) [] of
           Inl e \<Rightarrow> Inl e
         | Inr acc \<Rightarrow>
             Inr (se\<lparr>se_expanded := sort (uniqLoop (addSunday (se_typ se) acc) {} [])\<rparr>))"

definition newScheduleEntity ::
    "(string \<Rightarrow> string) \<Rightarrow> string \<Rightarrow> scheduleType \<Rightarrow> error + scheduleEntity" where
  "newScheduleEntity ul r st = init ul \<lparr>se_raw = r, se_typ = st, se_expanded = []\<rparr>"

text \<open>The contract \<open>expand\<close> of the field expander: the expanded list of a new entity.\<close>

definition expand :: "(string \<Rightarrow> string) \<Rightarrow> string \<Rightarrow> scheduleType \<Rightarrow> error + int list" where
  "expand ul r st = map_sum id se_expanded (newScheduleEntity ul r st)"

section \<open>job.go\<close>

text \<open>
  \<^verbatim>\<open>fieldsN\<close>.  The loop \<^verbatim>\<open>for _, r := range str\<close> is \<open>fieldsN_loop\<close>: \<open>rest\<close> is the part
  of \<open>str\<close> the iteration has not read, \<open>offset\<close>, \<open>n\<close>, \<open>buf\<close> and \<open>flds\<close> are the
  variables of the source.  The iteration advances by the width of the rune read, the
  source adds \<^verbatim>\<open>len(string(r))\<close> to \<open>offset\<close>.  The slice \<^verbatim>\<open>str[offset:]\<close> panics when
  \<open>offset\<close> exceeds the length of \<open>str\<close>; the panic is the \<open>Inl\<close> result.
\<close>

datatype panic = SliceBoundsOutOfRange

function fieldsN_loop ::
    "string \<Rightarrow> string \<Rightarrow> nat \<Rightarrow> int \<Rightarrow> string \<Rightarrow> string list \<Rightarrow> panic + string \<times> string list" where
  "fieldsN_loop str rest offset n buf flds =
     (if rest = [] then Inr (buf, flds)
      else if n < 2 then
        (if offset \<le> length str then Inr (buf, flds @ [TrimSpace (drop offset str)])
         else Inl SliceBoundsOutOfRange)
      else
        (let r = fst (DecodeRune rest);
             rest' = drop (snd (DecodeRune rest)) rest;
             offset' = offset + length (EncodeRune r)
         in if IsSpace r
            then (if buf \<noteq> [] then fieldsN_loop str rest' offset' (n - 1) [] (flds @ [buf])
                  else fieldsN_loop str rest' offset' n buf flds)
            else fieldsN_loop str rest' offset' n (buf @ EncodeRune r) flds))"
  by pat_completeness auto
termination
proof (relation "measure (\<lambda>(str, rest, offset, n, buf, flds). length rest)")
  show "wf (measure (\<lambda>(str, rest, offset, n, buf, flds). length rest))" by simp
next
  have w: "length (drop (snd (DecodeRune rest)) rest) < length rest" if "rest \<noteq> []"
    for rest :: string
  proof -
    from that obtain c cs where s: "rest = c # cs" by (cases rest) auto
    have "0 < snd (DecodeRune (c # cs))"
      by (auto simp: Let_def split: list.splits)
    then show ?thesis using s by simp
  qed
  fix str rest :: string and offset :: nat and n :: int and buf :: string
    and flds :: "string list" and r rest' offset'
  assume "rest \<noteq> []" "rest' = drop (snd (DecodeRune rest)) rest"
  then have "length rest' < length rest" using w by simp
  then show
    "((str, rest', offset', n - 1, [], flds @ [buf]), (str, rest, offset, n, buf, flds))
       \<in> measure (\<lambda>(str, rest, offset, n, buf, flds). length rest)"
    "((str, rest', offset', n, buf, flds), (str, rest, offset, n, buf, flds))
       \<in> measure (\<lambda>(str, rest, offset, n, buf, flds). length rest)"
    "((str, rest', offset', n, buf @ EncodeRune r, flds), (str, rest, offset, n, buf, flds))
       \<in> measure (\<lambda>(str, rest, offset, n, buf, flds). length rest)"
    by simp_all
qed

declare fieldsN_loop.simps [simp del]

definition fieldsN :: "string \<Rightarrow> int \<Rightarrow> panic + string list" where
  "fieldsN str0 n =
     (let str = TrimSpace str0 in
      case fieldsN_loop str str 0 n [] [] of
        Inl p \<Rightarrow> Inl p
      | Inr (buf, flds) \<Rightarrow> Inr (if buf \<noteq> [] then flds @ [buf] else flds))"

text \<open>
  \<^verbatim>\<open>scheduleReg = ^(@\w+|(?:\S+\s+){5})(.*)$\<close>.  In Go's syntax \<open>\s\<close> is
  \<^verbatim>\<open>[\t\n\f\r ]\<close>, \<open>\w\<close> is \<^verbatim>\<open>[0-9A-Za-z_]\<close>, the dot matches everything but a
  newline and \<open>$\<close> only the end of the text.  Matching is leftmost-first: the named
  token is tried first, then the five groups; every repetition is greedy and, since a
  shorter repetition never lets the rest of the pattern match, the greedy split is
  the only one.  The result is the pair of the two captured groups.
\<close>

definition reSpace :: "char \<Rightarrow> bool" where
  "reSpace c = (c \<in> set [CHR 0x09, CHR 0x0A, CHR 0x0C, CHR 0x0D, CHR 0x20])"

definition reWord :: "char \<Rightarrow> bool" where
  "reWord c = (isDigit c \<or> inRange c 0x41 0x5A \<or> inRange c 0x61 0x7A \<or> c = CHR ''_'')"

fun fieldGroups :: "nat \<Rightarrow> string \<Rightarrow> (string \<times> string) option" where
  "fieldGroups 0 s = Some ([], s)"
| "fieldGroups (Suc k) s =
     (let f = takeWhile (\<lambda>c. \<not> reSpace c) s; r = dropWhile (\<lambda>c. \<not> reSpace c) s;
          w = takeWhile reSpace r; r' = dropWhile reSpace r
      in if f = [] \<or> w = [] then None
         else case fieldGroups k r' of
                None \<Rightarrow> None
              | Some (m, rest) \<Rightarrow> Some (f @ w @ m, rest))"

definition namedToken :: "string \<Rightarrow> (string \<times> string) option" where
  "namedToken s =
     (case s of
        [] \<Rightarrow> None
      | c # t \<Rightarrow>
          if c = CHR ''@'' \<and> takeWhile reWord t \<noteq> [] \<and> CHR 0x0A \<notin> set (dropWhile reWord t)
          then Some (c # takeWhile reWord t, dropWhile reWord t) else None)"

definition scheduleReg :: "string \<Rightarrow> (string \<times> string) option" where
  "scheduleReg s =
     (case namedToken s of
        Some m \<Rightarrow> Some m
      | None \<Rightarrow>
          (case fieldGroups 5 s of
             None \<Rightarrow> None
           | Some (m1, m2) \<Rightarrow> if CHR 0x0A \<in> set m2 then None else Some (m1, m2)))"

text \<open>
  \<^verbatim>\<open>Job\<close>, \<^verbatim>\<open>parse\<close> and \<^verbatim>\<open>ParseJob\<close>.  \<^verbatim>\<open>ParseSchedule\<close> is not part of these sources:
  it is the parameter of \<open>parse\<close> and \<open>ParseJob\<close>, returning the schedule and the
  error as Go does (either may be nil).  \<open>parse\<close> returns the job as the method leaves
  it together with the error it returns.
\<close>

datatype 'e job_error = FieldInvalid string | ScheduleError 'e

record ('s, 'e) Job =
  jo_raw :: string
  jo_env :: "string \<rightharpoonup> string"
  jo_user :: string
  jo_command :: string
  jo_schedule :: "'s option"
  jo_err :: "'e job_error option"

definition parse ::
    "(string \<Rightarrow> 's option \<times> 'e option) \<Rightarrow> ('s, 'e) Job \<Rightarrow> bool \<Rightarrow>
       panic + ('s, 'e) Job \<times> 'e job_error option" where
  "parse ParseSchedule jo hasUser =
     (case scheduleReg (TrimSpace (jo_raw jo)) of
        Some (m1, m2) \<Rightarrow>
          (let (sch, err) = ParseSchedule (TrimSpace m1);
               jo1 = jo\<lparr>jo_schedule := sch\<rparr>
           in case err of
                Some e \<Rightarrow> Inr (jo1, Some (ScheduleError e))
              | None \<Rightarrow>
                  if hasUser then
                    (case fieldsN m2 2 of
                       Inl p \<Rightarrow> Inl p
                     | Inr flds \<Rightarrow>
                         if length flds \<noteq> 2 then Inr (jo1, Some (FieldInvalid (jo_raw jo)))
                         else Inr (jo1\<lparr>jo_user := flds ! 0, jo_command := flds ! 1\<rparr>, None))
                  else Inr (jo1\<lparr>jo_command := m2\<rparr>, None))
      | None \<Rightarrow> Inr (jo, Some (FieldInvalid (jo_raw jo))))"

definition ParseJob ::
    "(string \<Rightarrow> 's option \<times> 'e option) \<Rightarrow> string \<Rightarrow> bool \<Rightarrow> (string \<rightharpoonup> string) \<Rightarrow>
       panic + ('s, 'e) Job" where
  "ParseJob ParseSchedule r hasUser env =
     (case parse ParseSchedule
             \<lparr>jo_raw = r, jo_env = env, jo_user = [], jo_command = [],
              jo_schedule = None, jo_err = None\<rparr> hasUser of
        Inl p \<Rightarrow> Inl p
      | Inr (jo, err) \<Rightarrow> Inr (jo\<lparr>jo_err := err\<rparr>))"

text \<open>A schedule parser to run \<open>ParseJob\<close> on concrete lines: it accepts three
  schedule texts and hands them back as the schedule.\<close>

definition sampleSchedule :: "string \<Rightarrow> string option \<times> string option" where
  "sampleSchedule s =
     (if s \<in> set [''@daily'', ''* * * * *'', ''*/5 * * * *''] then (Some s, None)
      else (None, Some ''unknown schedule''))"


text \<open>Vocabulary of the specification: a decimal number of one or two digits.\<close>

definition digits12 :: "string \<Rightarrow> bool" where
  "digits12 s = (1 \<le> length s \<and> length s \<le> 2 \<and> list_all isDigit s)"



section \<open>Properties of the field expander\<close>

subsection \<open>The loops in closed form\<close>

lemma rangeLoop_eq: "rangeLoop i hi acc = acc @ [i..hi]"
proof (induction i hi acc rule: rangeLoop.induct)
  case (1 i hi acc)
  show ?case
  proof (cases "i \<le> hi")
    case True
    then show ?thesis
      using "1.IH" [OF True] by (subst rangeLoop.simps) (simp add: upto_rec1)
  next
    case False
    then show ?thesis by (subst rangeLoop.simps) simp
  qed
qed

lemma stepLoop_eq:
  "stepLoop i hi incr c acc = acc @ filter (\<lambda>v. go_rem (c + (v - i)) incr = 0) [i..hi]"
proof (induction i hi incr c acc rule: stepLoop.induct)
  case (1 i hi incr c acc)
  show ?case
  proof (cases "i \<le> hi")
    case True
    have shift: "filter (\<lambda>v. go_rem (c + 1 + (v - (i + 1))) incr = 0) [i + 1..hi]
               = filter (\<lambda>v. go_rem (c + (v - i)) incr = 0) [i + 1..hi]"
      by (rule filter_cong) (auto simp: algebra_simps)
    show ?thesis
      using True "1.IH" [OF True] shift
      by (subst stepLoop.simps) (simp add: upto_rec1 [of i hi])
  next
    case False
    then show ?thesis by (subst stepLoop.simps) simp
  qed
qed

lemma uniqLoop_inv:
  "distinct u \<Longrightarrow> set u = seen \<Longrightarrow>
   distinct (uniqLoop vs seen u) \<and> set (uniqLoop vs seen u) = seen \<union> set vs"
  by (induction vs seen u rule: uniqLoop.induct) auto

lemma uniqLoop_distinct: "distinct (uniqLoop vs {} [])"
  using uniqLoop_inv [of "[]" "{}" vs] by simp

lemma uniqLoop_set: "set (uniqLoop vs {} []) = set vs"
  using uniqLoop_inv [of "[]" "{}" vs] by simp

lemma hasSun_iff: "hasSun xs \<longleftrightarrow> 7 \<in> set xs"
proof -
  have "foldl (\<lambda>h v. if v = 7 then True else h) b xs \<longleftrightarrow> b \<or> 7 \<in> set xs" for b
    by (induction xs arbitrary: b) auto
  then show ?thesis by (simp add: hasSun_def)
qed

lemma addSunday_set:
  "set (addSunday st xs) =
     set xs \<union> (if st = scheduleDayOfWeek \<and> 7 \<in> set xs then {0} else {})"
  by (simp add: addSunday_def hasSun_iff)

subsection \<open>Evaluation on concrete fields\<close>

lemmas go_eval =
  expand_def newScheduleEntity_def init_def ToLower_def isASCII_def lowerByte_def
  parseRange_def rangeReg_def ParseUint_def decimal_def digitVal_def isDigit_def
  int_of_uint64_def go_rem_def SplitN2_def addSunday_def hasSun_def showNat.simps
  digitChar_def stepLoop.simps rangeLoop.simps Let_def

lemma expand_7_dow: "expand ul ''7'' scheduleDayOfWeek = Inr [0, 7]"
  by (simp add: go_eval)

subsection \<open>Values stay in the domain\<close>

lemma parseRange_bounds:
  "parseRange item rng = Inr (lo, hi) \<Longrightarrow> fst rng \<le> lo \<and> hi \<le> snd rng"
  by (auto simp: parseRange_def Let_def split: if_splits option.splits)

lemma expandItems_bounds:
  "expandItems r rng items acc = Inr out \<Longrightarrow>
   \<forall>x\<in>set acc. fst rng \<le> x \<and> x \<le> snd rng \<Longrightarrow>
   \<forall>x\<in>set out. fst rng \<le> x \<and> x \<le> snd rng"
proof (induction items arbitrary: acc)
  case Nil
  then show ?case by simp
next
  case (Cons item items)
  show ?case
  proof (cases "SplitN2 item (CHR ''/'')")
    case (Some p)
    obtain s0 s1 where p: "p = (s0, s1)" by (cases p)
    from Cons.prems(1) Some p obtain lo hi n where
      pr: "parseRange s0 rng = Inr (lo, hi)" and
      rest: "expandItems r rng items (stepLoop lo hi (int_of_uint64 n) 0 acc) = Inr out"
      by (auto split: sum.splits option.splits if_splits)
    have "\<forall>x\<in>set (stepLoop lo hi (int_of_uint64 n) 0 acc). fst rng \<le> x \<and> x \<le> snd rng"
      using parseRange_bounds [OF pr] Cons.prems(2) by (auto simp: stepLoop_eq)
    then show ?thesis by (rule Cons.IH [OF rest])
  next
    case None
    show ?thesis
    proof (cases "ParseUint item")
      case (Some n)
      with None Cons.prems(1) have
        inb: "\<not> (int_of_uint64 n < fst rng \<or> int_of_uint64 n > snd rng)" and
        rest: "expandItems r rng items (acc @ [int_of_uint64 n]) = Inr out"
        by (auto simp: Let_def split: if_splits)
      have "\<forall>x\<in>set (acc @ [int_of_uint64 n]). fst rng \<le> x \<and> x \<le> snd rng"
        using inb Cons.prems(2) by auto
      then show ?thesis by (rule Cons.IH [OF rest])
    next
      case pn: None
      with None Cons.prems(1) obtain lo hi where
        pr: "parseRange item rng = Inr (lo, hi)" and
        rest: "expandItems r rng items (rangeLoop lo hi acc) = Inr out"
        by (auto split: sum.splits)
      have "\<forall>x\<in>set (rangeLoop lo hi acc). fst rng \<le> x \<and> x \<le> snd rng"
        using parseRange_bounds [OF pr] Cons.prems(2) by (auto simp: rangeLoop_eq)
      then show ?thesis by (rule Cons.IH [OF rest])
    qed
  qed
qed

lemma expand_Inr:
  "expand ul r st = Inr xs \<longleftrightarrow>
   (\<exists>acc. expandItems r (ep_Range (entityParams st))
            (Split (substAliases (ToLower ul r) 0 (ep_Aliases (entityParams st))) (CHR '','')) []
            = Inr acc \<and> xs = sort (uniqLoop (addSunday st acc) {} []))"
  by (auto simp: expand_def newScheduleEntity_def init_def Let_def split: sum.splits)

text \<open>
  Claim C1.  Whenever \<open>expand\<close> succeeds on a raw field and a field kind, the expanded
  list is strictly ascending, has no duplicate, and every value lies in the closed
  domain of the kind; for the day of week the domain is 0 to 7, so 0 and 7 can both be
  present.
\<close>

theorem expand_sorted_distinct_in_domain:
  assumes "expand ul r st = Inr xs"
  shows "sorted_wrt (<) xs \<and> distinct xs \<and>
         (\<forall>x\<in>set xs. fst (ep_Range (entityParams st)) \<le> x \<and>
                        x \<le> snd (ep_Range (entityParams st)))"
proof -
  let ?rng = "ep_Range (entityParams st)"
  from assms obtain acc where
    items: "expandItems r ?rng
              (Split (substAliases (ToLower ul r) 0 (ep_Aliases (entityParams st))) (CHR '','')) []
            = Inr acc"
    and xs: "xs = sort (uniqLoop (addSunday st acc) {} [])"
    by (auto simp: expand_Inr)
  have acc: "\<forall>x\<in>set acc. fst ?rng \<le> x \<and> x \<le> snd ?rng"
    using expandItems_bounds [OF items] by simp
  have "set xs = set (addSunday st acc)"
    by (simp add: xs uniqLoop_set)
  moreover have "\<forall>x\<in>set (addSunday st acc). fst ?rng \<le> x \<and> x \<le> snd ?rng"
    using acc by (cases st) (auto simp: addSunday_set)
  moreover have "distinct xs" and "sorted xs"
    by (simp_all add: xs uniqLoop_distinct)
  ultimately show ?thesis
    by (simp add: strict_sorted_iff)
qed

theorem expand_sorted_distinct_in_domain_witness:
  "expand (\<lambda>s. s) ''7'' scheduleDayOfWeek = Inr [0, 7] \<and>
   sorted_wrt (<) [0, 7 :: int] \<and> distinct [0, 7 :: int] \<and>
   list_all (\<lambda>x. 0 \<le> x \<and> x \<le> 7) [0, 7 :: int]"
proof -
  have e: "expand (\<lambda>s. s) ''7'' scheduleDayOfWeek = Inr [0, 7]"
    by (rule expand_7_dow)
  show ?thesis
    using e expand_sorted_distinct_in_domain [OF e] by simp
qed

subsection \<open>Range resolution\<close>

lemma not_isDigit_dash: "\<not> isDigit (CHR ''-'')"
  by (simp add: isDigit_def)

lemma rangeReg_Some:
  "rangeReg item = Some (m1, m2) \<longleftrightarrow>
     item = m1 @ ''-'' @ m2 \<and> digits12 m1 \<and> digits12 m2"
proof
  assume a: "rangeReg item = Some (m1, m2)"
  then have m1: "m1 = takeWhile isDigit item" and dw: "dropWhile isDigit item = CHR ''-'' # m2"
    and rest: "1 \<le> length m1" "length m1 \<le> 2" "1 \<le> length m2" "length m2 \<le> 2"
        "list_all isDigit m2"
    by (auto simp: rangeReg_def Let_def split: list.splits if_splits)
  have "item = takeWhile isDigit item @ dropWhile isDigit item" by simp
  then have "item = m1 @ ''-'' @ m2" using m1 dw by simp
  moreover have "list_all isDigit m1"
    unfolding m1 list_all_iff by (auto dest: set_takeWhileD)
  ultimately show "item = m1 @ ''-'' @ m2 \<and> digits12 m1 \<and> digits12 m2"
    using rest by (simp add: digits12_def)
next
  assume a: "item = m1 @ ''-'' @ m2 \<and> digits12 m1 \<and> digits12 m2"
  then have d1: "\<forall>c\<in>set m1. isDigit c" by (simp add: digits12_def list_all_iff)
  have "takeWhile isDigit item = m1" "dropWhile isDigit item = CHR ''-'' # m2"
    using a d1 not_isDigit_dash by (simp_all add: takeWhile_append2 dropWhile_append2)
  then show "rangeReg item = Some (m1, m2)"
    using a by (simp add: rangeReg_def digits12_def)
qed

lemma rangeReg_None:
  "rangeReg item = None \<longleftrightarrow> \<not> (\<exists>m1 m2. item = m1 @ ''-'' @ m2 \<and> digits12 m1 \<and> digits12 m2)"
  using rangeReg_Some [of item] by (cases "rangeReg item") auto

lemma star_not_range: "\<not> (\<exists>m1 m2. ''*'' = m1 @ ''-'' @ m2)"
  by (auto simp: Cons_eq_append_conv)

lemma expand_star:
  "expand ul ''*'' st =
     Inr [fst (ep_Range (entityParams st)) .. snd (ep_Range (entityParams st))]"
  by (cases st) (simp_all add: go_eval upto.simps)

lemma expand_5_5:
  "expand ul ''5-5'' scheduleMinute = Inl (InvalidEntityRange ''5-5'' (InvalidRange ''5-5''))"
  by (simp add: go_eval)

text \<open>
  Claim C3.  Range resolution succeeds on exactly two shapes: the token \<open>*\<close> gives the
  whole domain, and a token made of two numbers of one or two digits around a dash
  gives \<open>[a, b]\<close> exactly when \<open>a < b\<close> and both lie in the domain.  Every other token
  is the error naming the token.  So \<open>5-5\<close> fails for the minute, and \<open>*\<close> expands to
  the full contiguous domain of every kind.
\<close>

theorem parseRange_shapes:
  "(parseRange item (lo, hi) = Inr (a, b) \<longleftrightarrow>
      (item = ''*'' \<and> a = lo \<and> b = hi) \<or>
      (\<exists>m1 m2. item = m1 @ ''-'' @ m2 \<and> digits12 m1 \<and> digits12 m2 \<and>
         a = int (decimal m1) \<and> b = int (decimal m2) \<and>
         a < b \<and> lo \<le> a \<and> a \<le> hi \<and> lo \<le> b \<and> b \<le> hi)) \<and>
   (\<forall>e. parseRange item (lo, hi) = Inl e \<longrightarrow> e = InvalidRange item) \<and>
   expand ul ''5-5'' scheduleMinute =
     Inl (InvalidEntityRange ''5-5'' (InvalidRange ''5-5'')) \<and>
   expand ul ''*'' st =
     Inr [fst (ep_Range (entityParams st)) .. snd (ep_Range (entityParams st))]"
proof (intro conjI)
  show "parseRange item (lo, hi) = Inr (a, b) \<longleftrightarrow>
      (item = ''*'' \<and> a = lo \<and> b = hi) \<or>
      (\<exists>m1 m2. item = m1 @ ''-'' @ m2 \<and> digits12 m1 \<and> digits12 m2 \<and>
         a = int (decimal m1) \<and> b = int (decimal m2) \<and>
         a < b \<and> lo \<le> a \<and> a \<le> hi \<and> lo \<le> b \<and> b \<le> hi)"
  proof (cases "item = ''*''")
    case True
    then show ?thesis using star_not_range by (auto simp: parseRange_def)
  next
    case False
    show ?thesis
    proof (cases "rangeReg item")
      case None
      then show ?thesis
        using False rangeReg_None [of item] by (auto simp: parseRange_def)
    next
      case (Some p)
      obtain m1 m2 where p: "p = (m1, m2)" by (cases p)
      from Some p have sh: "item = m1 @ ''-'' @ m2" "digits12 m1" "digits12 m2"
        by (simp_all add: rangeReg_Some)
      have uniq: "n1 = m1 \<and> n2 = m2"
        if "item = n1 @ ''-'' @ n2" "digits12 n1" "digits12 n2" for n1 n2
        using that Some p rangeReg_Some [of item n1 n2] by simp
      show ?thesis
      proof
        assume "parseRange item (lo, hi) = Inr (a, b)"
        then have "a = int (decimal m1)" "b = int (decimal m2)" "a < b" "lo \<le> a" "b \<le> hi"
          using False Some p by (auto simp: parseRange_def Let_def split: if_splits)
        then show "(item = ''*'' \<and> a = lo \<and> b = hi) \<or>
          (\<exists>m1 m2. item = m1 @ ''-'' @ m2 \<and> digits12 m1 \<and> digits12 m2 \<and>
             a = int (decimal m1) \<and> b = int (decimal m2) \<and>
             a < b \<and> lo \<le> a \<and> a \<le> hi \<and> lo \<le> b \<and> b \<le> hi)"
          using sh by (intro disjI2 exI [of _ m1] exI [of _ m2]) simp
      next
        assume "(item = ''*'' \<and> a = lo \<and> b = hi) \<or>
          (\<exists>m1 m2. item = m1 @ ''-'' @ m2 \<and> digits12 m1 \<and> digits12 m2 \<and>
             a = int (decimal m1) \<and> b = int (decimal m2) \<and>
             a < b \<and> lo \<le> a \<and> a \<le> hi \<and> lo \<le> b \<and> b \<le> hi)"
        with False obtain n1 n2 where n: "item = n1 @ ''-'' @ n2" "digits12 n1" "digits12 n2"
          "a = int (decimal n1)" "b = int (decimal n2)" "a < b" "lo \<le> a" "b \<le> hi"
          by auto
        from uniq [OF n(1-3)] have "n1 = m1" "n2 = m2" by simp_all
        with n show "parseRange item (lo, hi) = Inr (a, b)"
          using False Some p by (simp add: parseRange_def Let_def)
      qed
    qed
  qed
next
  show "\<forall>e. parseRange item (lo, hi) = Inl e \<longrightarrow> e = InvalidRange item"
    by (auto simp: parseRange_def Let_def split: if_splits option.splits)
next
  show "expand ul ''5-5'' scheduleMinute =
     Inl (InvalidEntityRange ''5-5'' (InvalidRange ''5-5''))"
    by (rule expand_5_5)
next
  show "expand ul ''*'' st =
     Inr [fst (ep_Range (entityParams st)) .. snd (ep_Range (entityParams st))]"
    by (rule expand_star)
qed

theorem parseRange_shapes_witness:
  "parseRange ''1-10'' (0, 59) = Inr (1, 10) \<and>
   parseRange ''10-1'' (0, 59) = Inl (InvalidRange ''10-1'')"
proof -
  have "''1-10'' = ''1'' @ ''-'' @ ''10'' \<and> digits12 ''1'' \<and> digits12 ''10'' \<and>
        (1::int) = int (decimal ''1'') \<and> (10::int) = int (decimal ''10'')"
    by (simp add: digits12_def isDigit_def decimal_def digitVal_def)
  then have ex: "\<exists>m1 m2. ''1-10'' = m1 @ ''-'' @ m2 \<and> digits12 m1 \<and> digits12 m2 \<and>
         (1::int) = int (decimal m1) \<and> (10::int) = int (decimal m2) \<and>
         (1::int) < 10 \<and> (0::int) \<le> 1 \<and> (1::int) \<le> 59 \<and> (0::int) \<le> 10 \<and> (10::int) \<le> 59"
    by (intro exI [of _ "''1''"] exI [of _ "''10''"]) simp
  have bad: "parseRange ''10-1'' (0, 59) = Inl (InvalidRange ''10-1'')"
    by (simp add: go_eval)
  show ?thesis
    using ex bad
      parseRange_shapes [of "''1-10''" 0 59 1 10 "\<lambda>s. s" scheduleMinute]
      parseRange_shapes [of "''10-1''" 0 59 1 10 "\<lambda>s. s" scheduleMinute]
    by blast
qed


subsection \<open>Steps\<close>

lemma stepLoop_progression:
  assumes "0 < n" "n < 2 ^ 63"
  shows "stepLoop a b (int_of_uint64 n) 0 acc = acc @ filter (\<lambda>v. int n dvd v - a) [a..b]"
proof -
  have "filter (\<lambda>v. go_rem (0 + (v - a)) (int_of_uint64 n) = 0) [a..b]
      = filter (\<lambda>v. int n dvd v - a) [a..b]"
    using assms by (intro filter_cong refl) (auto simp: go_rem_def int_of_uint64_def dvd_eq_mod_eq_0)
  then show ?thesis by (simp add: stepLoop_eq)
qed

lemma expandItems_step_item:
  assumes "SplitN2 item (CHR ''/'') = Some (R, s)"
    and "parseRange R rng = Inr (a, b)"
    and "ParseUint s = Some n" "0 < n" "n < 2 ^ 63"
  shows "expandItems r rng (item # items) acc =
           expandItems r rng items (acc @ filter (\<lambda>v. int n dvd v - a) [a..b])"
  using assms by (simp add: stepLoop_progression)

lemma expand_step_15: "expand ul ''*/15'' scheduleMinute = Inr [0, 15, 30, 45]"
  by (simp add: go_eval)

lemma expand_step_range: "expand ul ''1-10/3'' scheduleMinute = Inr [1, 4, 7, 10]"
  by (simp add: go_eval)

text \<open>
  Claim C2 says that an item \<open>R/s\<close> keeps \<open>a, a+s, a+2s, ...\<close> for every step \<open>s\<close> that
  parses as a positive integer.  \<open>stepLoop_progression\<close> above is that statement for
  steps below \<open>2^63\<close>.  The step is parsed as an unsigned 64-bit number and then
  converted to \<^verbatim>\<open>int\<close>: the largest one becomes \<open>-1\<close>, the remainder by it is always
  zero, and the item keeps every value of the range instead of the first one only.
\<close>

theorem expand_step_wraps:
  "ParseUint ''18446744073709551615'' = Some 18446744073709551615 \<and>
   int_of_uint64 18446744073709551615 = - 1 \<and>
   expand ul ''*/18446744073709551615'' scheduleMinute = Inr [0..59]"
  by (simp add: go_eval upto.simps)

lemma expand_0_7_dow: "expand ul ''0,7'' scheduleDayOfWeek = Inr [0, 7]"
  by (simp add: go_eval)

subsection \<open>Sunday\<close>

text \<open>
  Claim C4.  For the day of week, the result of a successful expansion has the values
  accumulated from the items, plus 0 when 7 is among them; 7 stays.  So \<open>7\<close> expands
  to 0 and 7, and so does \<open>0,7\<close>.
\<close>

theorem dow_seven_adds_zero:
  "(expand ul r scheduleDayOfWeek = Inr xs \<longrightarrow>
      (\<exists>acc. expandItems r (0, 7)
                (Split (substAliases (ToLower ul r) 0
                   (ep_Aliases (entityParams scheduleDayOfWeek))) (CHR '','')) [] = Inr acc \<and>
             set xs = set acc \<union> (if 7 \<in> set acc then {0} else {})) \<and>
      (7 \<in> set xs \<longrightarrow> 0 \<in> set xs)) \<and>
   expand ul ''7'' scheduleDayOfWeek = Inr [0, 7] \<and>
   expand ul ''0,7'' scheduleDayOfWeek = Inr [0, 7]"
proof (intro conjI impI)
  assume e: "expand ul r scheduleDayOfWeek = Inr xs"
  then obtain acc where
    items: "expandItems r (0, 7)
              (Split (substAliases (ToLower ul r) 0
                 (ep_Aliases (entityParams scheduleDayOfWeek))) (CHR '','')) [] = Inr acc"
    and xs: "xs = sort (uniqLoop (addSunday scheduleDayOfWeek acc) {} [])"
    by (auto simp: expand_Inr)
  have s: "set xs = set acc \<union> (if 7 \<in> set acc then {0} else {})"
    by (simp add: xs uniqLoop_set addSunday_set)
  show "\<exists>acc. expandItems r (0, 7)
                (Split (substAliases (ToLower ul r) 0
                   (ep_Aliases (entityParams scheduleDayOfWeek))) (CHR '','')) [] = Inr acc \<and>
             set xs = set acc \<union> (if 7 \<in> set acc then {0} else {})"
    using items s by blast
  show "0 \<in> set xs" if "7 \<in> set xs"
    using that s by (auto split: if_splits)
next
  show "expand ul ''7'' scheduleDayOfWeek = Inr [0, 7]" by (rule expand_7_dow)
  show "expand ul ''0,7'' scheduleDayOfWeek = Inr [0, 7]" by (rule expand_0_7_dow)
qed

theorem dow_seven_adds_zero_witness:
  "expand (\<lambda>s. s) ''6-7'' scheduleDayOfWeek = Inr [0, 6, 7] \<and>
   (7::int) \<in> set [0, 6, 7] \<and> (0::int) \<in> set [0, 6, 7]"
proof -
  have e: "expand (\<lambda>s. s) ''6-7'' scheduleDayOfWeek = Inr [0, 6, 7]"
    by (simp add: go_eval)
  show ?thesis
    using e dow_seven_adds_zero [of "\<lambda>s. s" "''6-7''" "[0, 6, 7]"] by simp
qed

subsection \<open>Alias substitution\<close>






















section \<open>Properties of the job tokenizer\<close>

subsection \<open>Evaluation on concrete lines\<close>

lemma fieldGroups_5:
  "fieldGroups 5 s = fieldGroups (Suc (Suc (Suc (Suc (Suc 0))))) s"
  by (simp add: eval_nat_numeral)

lemmas job_eval =
  TrimSpace_def TrimLeft.simps TrimRight.simps DecodeLastRune_def scanStart.simps
  inRange_def contBits_def IsSpace_def RuneError_def EncodeRune_def char_of_def bit_0
  fieldsN_def fieldsN_loop.simps reSpace_def reWord_def isDigit_def namedToken_def
  scheduleReg_def fieldGroups_5 parse_def ParseJob_def RuneStart_def Let_def

subsection \<open>What TrimSpace leaves at the end\<close>





subsection \<open>Fields and the five-field branch\<close>









subsection \<open>Parsed jobs\<close>







text \<open>
  Claim C6 says that a job with an error has nothing else populated.  The user and the
  command are indeed empty then, and the schedule is nil when the pattern does not
  match.  Once the pattern matches, the schedule is whatever the schedule parser
  returned: it is assigned before the user and command are split, so a line whose
  split fails keeps its parsed schedule next to the error.
\<close>

theorem ParseJob_failed_split_counterexample:
  "ParseJob sampleSchedule ''* * * * * root'' True Map.empty =
     Inr \<lparr>jo_raw = ''* * * * * root'', jo_env = Map.empty, jo_user = [], jo_command = [],
          jo_schedule = Some ''* * * * *'',
          jo_err = Some (FieldInvalid ''* * * * * root'')\<rparr>"
  by (simp add: job_eval sampleSchedule_def)

theorem ParseJob_error_state:
  assumes "ParseJob ps r hasUser env = Inr jo"
  shows "(jo_err jo \<noteq> None \<longrightarrow> jo_user jo = [] \<and> jo_command jo = []) \<and>
         (scheduleReg (TrimSpace r) = None \<longrightarrow>
            jo_err jo = Some (FieldInvalid r) \<and> jo_schedule jo = None) \<and>
         (\<forall>m1 m2. scheduleReg (TrimSpace r) = Some (m1, m2) \<longrightarrow>
            jo_schedule jo = fst (ps (TrimSpace m1)) \<and>
            (\<forall>e. snd (ps (TrimSpace m1)) = Some e \<longrightarrow> jo_err jo = Some (ScheduleError e)) \<and>
            (snd (ps (TrimSpace m1)) = None \<and> jo_err jo \<noteq> None \<longrightarrow>
               hasUser \<and> jo_err jo = Some (FieldInvalid r)))"
  using assms
  by (auto simp: ParseJob_def parse_def Let_def
           split: option.splits sum.splits prod.splits if_splits)

theorem ParseJob_error_state_witness:
  "ParseJob sampleSchedule ''* * * * * root'' True Map.empty =
     Inr \<lparr>jo_raw = ''* * * * * root'', jo_env = Map.empty, jo_user = [], jo_command = [],
          jo_schedule = Some ''* * * * *'',
          jo_err = Some (FieldInvalid ''* * * * * root'')\<rparr> \<and>
   scheduleReg (TrimSpace ''* * * * * root'') = Some (''* * * * * '', ''root'') \<and>
   fst (sampleSchedule (TrimSpace ''* * * * * '')) = Some ''* * * * *''"
proof -
  have e: "ParseJob sampleSchedule ''* * * * * root'' True Map.empty =
     Inr \<lparr>jo_raw = ''* * * * * root'', jo_env = Map.empty, jo_user = [], jo_command = [],
          jo_schedule = Some ''* * * * *'',
          jo_err = Some (FieldInvalid ''* * * * * root'')\<rparr>"
    by (simp add: job_eval sampleSchedule_def)
  have m: "scheduleReg (TrimSpace ''* * * * * root'') = Some (''* * * * * '', ''root'')"
    by (simp add: job_eval)
  show ?thesis
    using e m ParseJob_error_state [OF e] by simp
qed

text \<open>
  Claim C7: with a user column the remainder is split into the first token, the user,
  and the rest trimmed, the command.  On the line of the claim this is what happens:
\<close>

lemma ParseJob_user_example:
  assumes "ps ''*/5 * * * *'' = (sch, None)"
  shows "ParseJob ps ''*/5 * * * * root echo  hi'' True env =
     Inr \<lparr>jo_raw = ''*/5 * * * * root echo  hi'', jo_env = env, jo_user = ''root'',
          jo_command = ''echo  hi'', jo_schedule = sch, jo_err = None\<rparr>"
proof -
  have "TrimSpace ''*/5 * * * * root echo  hi'' = ''*/5 * * * * root echo  hi''"
    by (simp add: job_eval)
  moreover have "scheduleReg ''*/5 * * * * root echo  hi'' =
      Some (''*/5 * * * * '', ''root echo  hi'')"
    by (simp add: job_eval)
  moreover have "TrimSpace ''*/5 * * * * '' = ''*/5 * * * *''"
    by (simp add: job_eval)
  moreover have "fieldsN ''root echo  hi'' 2 = Inr [''root'', ''echo  hi'']"
    by (simp add: job_eval)
  ultimately show ?thesis
    using assms by (simp add: ParseJob_def parse_def)
qed

text \<open>
  Claim C7 fails when the user token holds a byte that is not valid UTF-8.  The loop
  reads such a byte as \<open>RuneError\<close> and advances by one byte, but adds the three bytes
  of \<^verbatim>\<open>string(r)\<close> to \<open>offset\<close>: the user is written with the replacement character and
  the command is cut two bytes too far to the right.
\<close>

theorem ParseJob_invalid_byte_user:
  "ParseJob sampleSchedule (''* * * * * '' @ [CHR 0xFF] @ ''ab cdefg'') True Map.empty =
     Inr \<lparr>jo_raw = ''* * * * * '' @ [CHR 0xFF] @ ''ab cdefg'', jo_env = Map.empty,
          jo_user = [CHR 0xEF, CHR 0xBF, CHR 0xBD, CHR ''a'', CHR ''b''],
          jo_command = ''efg'', jo_schedule = Some ''* * * * *'', jo_err = None\<rparr>"
  by (simp add: job_eval sampleSchedule_def)

text \<open>
  Claim C9 says that \<open>ParseJob\<close> returns a job for every input, with the raw line and
  the environment it was given.  Whenever it returns, the job has them
  (\<open>ParseJob_raw_env\<close> below), and without a user column it always returns
  (\<open>ParseJob_no_user_returns\<close>).  With a user column the same offset error as above
  can pass the end of the string, and the slice panics.
\<close>

theorem ParseJob_invalid_byte_panics:
  "ParseJob sampleSchedule (''* * * * * '' @ [CHR 0xFF] @ '' a'') True Map.empty =
     Inl SliceBoundsOutOfRange"
  by (simp add: job_eval sampleSchedule_def)

lemma ParseJob_raw_env:
  "ParseJob ps r hasUser env = Inr jo \<Longrightarrow> jo_raw jo = r \<and> jo_env jo = env"
  by (auto simp: ParseJob_def parse_def Let_def
           split: option.splits sum.splits prod.splits if_splits)

lemma ParseJob_no_user_returns:
  "\<exists>jo. ParseJob ps r False env = Inr jo"
  by (auto simp: ParseJob_def parse_def Let_def
           split: option.splits sum.splits prod.splits if_splits)



end
